theory Spec2Isabelle
  imports Complex_Main "HOL-Library.AList"
begin

section \<open>Data model\<close>

text \<open>
  \<^verbatim>\<open>app/models/document.py\<close>: \<^verbatim>\<open>DocumentInput\<close> has title, content and metadata;
  \<^verbatim>\<open>Document\<close> adds an id and an optional embedding. The dictionary kept by the vector
  store is \<^verbatim>\<open>doc.dict()\<close> without the \<^verbatim>\<open>embedding\<close> key; \<^verbatim>\<open>retrieve_documents\<close> later
  adds a \<^verbatim>\<open>similarity_score\<close> key to it, so that key is optional in \<open>doc_data\<close>.
  Floats are idealised as reals. The field \<^verbatim>\<open>id\<close> is called \<open>doc_id\<close>.
\<close>

type_synonym metadata = "(string \<times> string) list"

record document_input =
  title :: string
  content :: string
  metadata :: "metadata option"

record doc_fields = document_input +
  doc_id :: string

record document = doc_fields +
  embedding :: "real list option"

record doc_data = doc_fields +
  similarity_score :: "real option"

text \<open>Exceptions that the modelled code can raise.\<close>

datatype error =
    IndexError
  | ValueError
  | AssertionError
  | FileNotFoundError
  | OSError
  | UnpicklingError
  | ValidationError
  | EmbeddingError string

text \<open>One constructor per \<^verbatim>\<open>logger\<close> call of the modelled code, with its dynamic parts.\<close>

datatype log_record =
    Info_Loaded nat string
  | Error_Loading error
  | Info_Created
  | Warning_NoEmbedding string
  | Info_Saved nat
  | Error_Saving error
  | Info_Ingested nat
  | Info_Retrieved nat string
  | Info_Generated nat
  | Error_Generating string
  | Info_Processed

section \<open>Python containers\<close>

text \<open>
  A Python \<^verbatim>\<open>dict\<close> keeps its keys in insertion order, and assigning to a key that is
  already present replaces the value in place: the key keeps its position. That is
  \<^const>\<open>AList.update\<close> on an association list. \<^verbatim>\<open>list(d.keys())\<close> is \<open>map fst\<close>,
  \<^verbatim>\<open>d.get(k)\<close> is \<^const>\<open>map_of\<close>.
\<close>

type_synonym 'v pydict = "(string \<times> 'v) list"

definition keys :: "'v pydict \<Rightarrow> string list" where
  "keys dct = map fst dct"

text \<open>
  Subscripting a Python list with an integer: positions \<open>0 .. len - 1\<close> are read from
  the front, \<open>-len .. -1\<close> from the back, and anything else is an \<^verbatim>\<open>IndexError\<close>.
\<close>

definition getitem :: "'a list \<Rightarrow> int \<Rightarrow> error + 'a" where
  "getitem xs i =
     (if 0 \<le> i \<and> i < int (length xs) then Inr (xs ! nat i)
      else if i < 0 \<and> - int (length xs) \<le> i then Inr (xs ! nat (int (length xs) + i))
      else Inl IndexError)"

section \<open>The FAISS flat L2 index\<close>

text \<open>
  Modelled from the spec: the Vector Index of section 4.1, which the code takes from the
  third-party library FAISS (\<^verbatim>\<open>faiss.IndexFlatL2\<close>) and which is therefore not among the
  sources. It stores vectors of a fixed dimension in insertion order and answers exact
  k-nearest-neighbour queries by squared Euclidean distance, nearest first. Distances
  between reals stand for FAISS's 32-bit floats. Ties are broken by ordinal here (the
  spec leaves the order of ties open). As FAISS does, \<open>add\<close> and \<open>search\<close> reject an array
  whose rows are not of the index dimension, \<open>search\<close> rejects \<open>k \<le> 0\<close>, and a result row
  is padded to length \<open>k\<close> with the label \<open>-1\<close> when fewer than \<open>k\<close> vectors are stored.
\<close>

record faiss_index =
  index_d :: nat
  xb :: "real list list"

definition IndexFlatL2 :: "nat \<Rightarrow> faiss_index" where
  "IndexFlatL2 dm = \<lparr>index_d = dm, xb = []\<rparr>"

definition ntotal :: "faiss_index \<Rightarrow> nat" where
  "ntotal idx = length (xb idx)"

definition l2sqr :: "real list \<Rightarrow> real list \<Rightarrow> real" where
  "l2sqr x y = (\<Sum>(a, b) \<leftarrow> zip x y. (a - b)\<^sup>2)"

definition faiss_add :: "faiss_index \<Rightarrow> real list list \<Rightarrow> error + faiss_index" where
  "faiss_add idx rows =
     (if \<forall>r \<in> set rows. length r = index_d idx
      then Inr (idx\<lparr>xb := xb idx @ rows\<rparr>)
      else Inl AssertionError)"

definition knn :: "faiss_index \<Rightarrow> nat \<Rightarrow> real list \<Rightarrow> (real \<times> int) list" where
  "knn idx k q =
     (let scored = zip (map (l2sqr q) (xb idx)) (map int [0..<ntotal idx]);
          best = take k (sort_key fst scored)
      in best @ replicate (k - length best) (0, -1))"

definition faiss_search ::
  "faiss_index \<Rightarrow> real list list \<Rightarrow> int \<Rightarrow> error + (real \<times> int) list list" where
  "faiss_search idx rows k =
     (if (\<exists>r \<in> set rows. length r \<noteq> index_d idx) \<or> k \<le> 0 then Inl AssertionError
      else Inr (map (knn idx (nat k)) rows))"

section \<open>The vector store: \<^verbatim>\<open>app/utils/vector_store.py\<close>\<close>

record vector_store =
  dimension :: nat
  store_path :: string
  index :: faiss_index
  documents :: "doc_data pydict"

text \<open>
  The files the store reads and writes, by path, the paths whose writing fails, and the
  log. A file holds a written index, a pickled dictionary, a raw document, or bytes that
  no reader accepts. \<open>embed_calls\<close> lists the batches given to the embedding model and
  \<open>uuid_count\<close> counts the identifiers drawn from \<^verbatim>\<open>uuid.uuid4\<close>.
\<close>

datatype file_content =
    IndexFile faiss_index
  | PickleFile "doc_data pydict"
  | JsonFile doc_data
  | Corrupt

record world =
  files :: "string \<rightharpoonup> file_content"
  unwritable :: "string set"
  logs :: "log_record list"
  embed_calls :: "string list list"
  uuid_count :: nat

definition logger :: "log_record \<Rightarrow> world \<Rightarrow> world" where
  "logger r w = w\<lparr>logs := logs w @ [r]\<rparr>"

definition index_path :: "vector_store \<Rightarrow> string" where
  "index_path s = store_path s @ ''.index''"

definition docs_path :: "vector_store \<Rightarrow> string" where
  "docs_path s = store_path s @ ''.pkl''"

text \<open>
  \<^verbatim>\<open>_save\<close>: both writes sit in one \<^verbatim>\<open>try\<close>; the first failure is logged and ends the
  attempt, and nothing is raised. The store itself is not touched.
\<close>

definition write_file :: "string \<Rightarrow> file_content \<Rightarrow> world \<Rightarrow> error + world" where
  "write_file p c w =
     (if p \<in> unwritable w then Inl OSError else Inr (w\<lparr>files := (files w)(p \<mapsto> c)\<rparr>))"

definition save :: "vector_store \<Rightarrow> world \<Rightarrow> world" where
  "save s w =
     (case write_file (index_path s) (IndexFile (index s)) w of
        Inl e \<Rightarrow> logger (Error_Saving e) w
      | Inr w1 \<Rightarrow>
          (case write_file (docs_path s) (PickleFile (documents s)) w1 of
             Inl e \<Rightarrow> logger (Error_Saving e) w1
           | Inr w2 \<Rightarrow> logger (Info_Saved (length (documents s))) w2))"

text \<open>
  \<^verbatim>\<open>add_documents\<close>. The loop skips a document without embedding, and for the others
  appends the embedding and the id and assigns \<^verbatim>\<open>self.documents[doc.id]\<close>.
\<close>

definition doc_copy :: "document \<Rightarrow> doc_data" where
  "doc_copy doc =
     \<lparr>title = title doc, content = content doc, metadata = metadata doc,
      doc_id = doc_id doc, similarity_score = None\<rparr>"

fun add_loop ::
  "document list \<Rightarrow> real list list \<times> string list \<times> doc_data pydict \<times> log_record list \<Rightarrow>
   real list list \<times> string list \<times> doc_data pydict \<times> log_record list" where
  "add_loop [] acc = acc"
| "add_loop (doc # rest) (embeddings, doc_ids, docs, lg) =
     (case embedding doc of
        None \<Rightarrow> add_loop rest (embeddings, doc_ids, docs, lg @ [Warning_NoEmbedding (doc_id doc)])
      | Some e \<Rightarrow>
          add_loop rest
            (embeddings @ [e], doc_ids @ [doc_id doc],
             AList.update (doc_id doc) (doc_copy doc) docs, lg))"

text \<open>
  \<^verbatim>\<open>np.array(embeddings)\<close> needs rows of one length (a ragged list raises), and
  \<^verbatim>\<open>index.add\<close> needs that length to be the index dimension.
\<close>

definition np_array :: "real list list \<Rightarrow> error + real list list" where
  "np_array rows =
     (if \<forall>r \<in> set rows. length r = length (hd rows) then Inr rows else Inl ValueError)"

definition add_documents ::
  "vector_store \<Rightarrow> world \<Rightarrow> document list \<Rightarrow> (error + string list) \<times> vector_store \<times> world" where
  "add_documents s w docs =
     (if docs = [] then (Inr [], s, w)
      else
        let (embeddings, doc_ids, dct, lg) = add_loop docs ([], [], documents s, logs w);
            s1 = s\<lparr>documents := dct\<rparr>;
            w1 = w\<lparr>logs := lg\<rparr>
        in if embeddings = [] then (Inr [], s1, w1)
           else
             (case np_array embeddings of
                Inl e \<Rightarrow> (Inl e, s1, w1)
              | Inr embeddings_array \<Rightarrow>
                  (case faiss_add (index s1) embeddings_array of
                     Inl e \<Rightarrow> (Inl e, s1, w1)
                   | Inr idx \<Rightarrow>
                       let s2 = s1\<lparr>index := idx\<rparr>
                       in (Inr doc_ids, s2, save s2 w1))))"

text \<open>
  \<^verbatim>\<open>search\<close>. The query is a one-dimensional array, which is made a single row, or a
  two-dimensional one; only the first result row is read. A label other than \<open>-1\<close> is
  resolved by indexing \<^verbatim>\<open>list(self.documents.keys())\<close>.
\<close>

datatype ndarray = Array1 "real list" | Array2 "real list list"

fun map_results :: "string list \<Rightarrow> (real \<times> int) list \<Rightarrow> error + (string \<times> real) list" where
  "map_results ks [] = Inr []"
| "map_results ks ((distance, idx) # rest) =
     (if idx \<noteq> - 1 then
        (case getitem ks idx of
           Inl e \<Rightarrow> Inl e
         | Inr did \<Rightarrow>
             (case map_results ks rest of
                Inl e \<Rightarrow> Inl e
              | Inr results \<Rightarrow> Inr ((did, distance) # results)))
      else map_results ks rest)"

definition search :: "vector_store \<Rightarrow> ndarray \<Rightarrow> int \<Rightarrow> error + (string \<times> real) list" where
  "search s query_embedding top_k =
     (if ntotal (index s) = 0 then Inr []
      else
        let rows = (case query_embedding of Array1 v \<Rightarrow> [v] | Array2 m \<Rightarrow> m)
        in case faiss_search (index s) rows (min top_k (int (ntotal (index s)))) of
             Inl e \<Rightarrow> Inl e
           | Inr res \<Rightarrow>
               (case res of
                  [] \<Rightarrow> Inl IndexError
                | hits # _ \<Rightarrow> map_results (keys (documents s)) hits))"

definition get_document :: "vector_store \<Rightarrow> string \<Rightarrow> doc_data option" where
  "get_document s did = map_of (documents s) did"

text \<open>
  \<^verbatim>\<open>__init__\<close> and \<^verbatim>\<open>_initialize_store\<close> (leading underscores are dropped from the names).
  \<^verbatim>\<open>os.path.dirname\<close> is the text up to the last slash, without trailing slashes
  unless it consists of slashes only. \<^verbatim>\<open>os.makedirs(name, exist_ok=True)\<close> raises on the
  empty name; directories are not modelled otherwise, so every other name succeeds.
  A reader accepts only a file that its writer produced.
\<close>

definition VECTOR_STORE_PATH :: string where
  "VECTOR_STORE_PATH = ''data/processed/vector_store''"

definition RAW_DOCUMENTS_PATH :: string where
  "RAW_DOCUMENTS_PATH = ''data/raw''"

definition TOP_K_RETRIEVAL :: int where
  "TOP_K_RETRIEVAL = 2"

definition EMBEDDING_DIMENSION :: nat where
  "EMBEDDING_DIMENSION = 384"

definition rstrip_sep :: "string \<Rightarrow> string" where
  "rstrip_sep p = rev (dropWhile (\<lambda>c. c = CHR ''/'') (rev p))"

definition dirname :: "string \<Rightarrow> string" where
  "dirname p =
     (let head = rev (dropWhile (\<lambda>c. c \<noteq> CHR ''/'') (rev p))
      in if head \<noteq> [] \<and> (\<exists>c \<in> set head. c \<noteq> CHR ''/'') then rstrip_sep head else head)"

definition makedirs :: "string \<Rightarrow> world \<Rightarrow> error + world" where
  "makedirs name w = (if name = [] then Inl FileNotFoundError else Inr w)"

definition path_exists :: "world \<Rightarrow> string \<Rightarrow> bool" where
  "path_exists w p \<longleftrightarrow> files w p \<noteq> None"

definition read_index :: "world \<Rightarrow> string \<Rightarrow> error + faiss_index" where
  "read_index w p = (case files w p of Some (IndexFile idx) \<Rightarrow> Inr idx | _ \<Rightarrow> Inl OSError)"

definition pickle_load :: "world \<Rightarrow> string \<Rightarrow> error + doc_data pydict" where
  "pickle_load w p =
     (case files w p of Some (PickleFile dct) \<Rightarrow> Inr dct | _ \<Rightarrow> Inl UnpicklingError)"

definition create_new_index :: "vector_store \<Rightarrow> world \<Rightarrow> vector_store \<times> world" where
  "create_new_index s w =
     (s\<lparr>index := IndexFlatL2 (dimension s), documents := []\<rparr>, logger Info_Created w)"

definition initialize_store ::
  "nat \<Rightarrow> string \<Rightarrow> world \<Rightarrow> (error + vector_store) \<times> world" where
  "initialize_store dm path w =
     (let s = \<lparr>dimension = dm, store_path = path, index = IndexFlatL2 dm, documents = []\<rparr>
      in case makedirs (dirname path) w of
           Inl e \<Rightarrow> (Inl e, w)
         | Inr w0 \<Rightarrow>
             if path_exists w0 (index_path s) \<and> path_exists w0 (docs_path s) then
               (case read_index w0 (index_path s) of
                  Inl e \<Rightarrow>
                    (let (s1, w1) = create_new_index s (logger (Error_Loading e) w0)
                     in (Inr s1, w1))
                | Inr idx \<Rightarrow>
                    (case pickle_load w0 (docs_path s) of
                       Inl e \<Rightarrow>
                         (let (s1, w1) =
                                create_new_index (s\<lparr>index := idx\<rparr>) (logger (Error_Loading e) w0)
                          in (Inr s1, w1))
                     | Inr dct \<Rightarrow>
                         (Inr (s\<lparr>index := idx, documents := dct\<rparr>),
                          logger (Info_Loaded (length dct) (docs_path s)) w0)))
             else (let (s1, w1) = create_new_index s w0 in (Inr s1, w1)))"

definition VectorStore ::
  "nat \<Rightarrow> string option \<Rightarrow> world \<Rightarrow> (error + vector_store) \<times> world" where
  "VectorStore dm path w =
     initialize_store dm
       (case path of None \<Rightarrow> VECTOR_STORE_PATH
        | Some p \<Rightarrow> if p = [] then VECTOR_STORE_PATH else p) w"

section \<open>The document service: \<^verbatim>\<open>app/services/document_service.py\<close>\<close>

text \<open>
  The embedding model and \<^verbatim>\<open>uuid.uuid4\<close> are parameters: \<open>encode\<close> maps a batch of texts
  to one vector per text or raises, \<open>uuid4 n\<close> is the \<open>n\<close>-th identifier drawn. Each call of
  the model is recorded in \<open>embed_calls\<close>.
\<close>

type_synonym encoder = "string list \<Rightarrow> error + real list list"

datatype texts = Str string | Strs "string list"

definition get_embeddings ::
  "encoder \<Rightarrow> texts \<Rightarrow> world \<Rightarrow> (error + real list list) \<times> world" where
  "get_embeddings encode txts w =
     (let batch = (case txts of Str t \<Rightarrow> [t] | Strs ts \<Rightarrow> ts)
      in (encode batch, w\<lparr>embed_calls := embed_calls w @ [batch]\<rparr>))"

text \<open>
  An input of \<^verbatim>\<open>ingest_documents\<close> is a dictionary (any key may be missing), a
  \<^verbatim>\<open>DocumentInput\<close> or a \<^verbatim>\<open>Document\<close>. \<^verbatim>\<open>Document(**doc)\<close> needs an id, a title and a
  content; the metadata defaults to the empty dictionary.
\<close>

record raw_dict =
  raw_id :: "string option"
  raw_title :: "string option"
  raw_content :: "string option"
  raw_metadata :: "metadata option option"
  raw_embedding :: "real list option"

datatype ingest_item = Dict raw_dict | Input document_input | Doc document

definition draw_uuid :: "(nat \<Rightarrow> string) \<Rightarrow> world \<Rightarrow> string \<times> world" where
  "draw_uuid uuid4 w = (uuid4 (uuid_count w), w\<lparr>uuid_count := Suc (uuid_count w)\<rparr>)"

definition to_document ::
  "(nat \<Rightarrow> string) \<Rightarrow> ingest_item \<Rightarrow> world \<Rightarrow> (error + document) \<times> world" where
  "to_document uuid4 item w =
     (case item of
        Dict r \<Rightarrow>
          (let (i, w1) = (case raw_id r of None \<Rightarrow> draw_uuid uuid4 w | Some i \<Rightarrow> (i, w))
           in case (raw_title r, raw_content r) of
                (Some t, Some c) \<Rightarrow>
                  (Inr \<lparr>title = t, content = c,
                        metadata = (case raw_metadata r of None \<Rightarrow> Some [] | Some m \<Rightarrow> m),
                        doc_id = i, embedding = raw_embedding r\<rparr>, w1)
              | _ \<Rightarrow> (Inl ValidationError, w1))
      | Input d \<Rightarrow>
          (let (i, w1) = draw_uuid uuid4 w
           in (Inr \<lparr>title = title d, content = content d, metadata = metadata d,
                    doc_id = i, embedding = None\<rparr>, w1))
      | Doc d \<Rightarrow>
          (if doc_id d = [] then
             (let (i, w1) = draw_uuid uuid4 w in (Inr (d\<lparr>doc_id := i\<rparr>), w1))
           else (Inr d, w)))"

fun to_documents ::
  "(nat \<Rightarrow> string) \<Rightarrow> ingest_item list \<Rightarrow> world \<Rightarrow> (error + document list) \<times> world" where
  "to_documents uuid4 [] w = (Inr [], w)"
| "to_documents uuid4 (item # rest) w =
     (case to_document uuid4 item w of
        (Inl e, w1) \<Rightarrow> (Inl e, w1)
      | (Inr doc, w1) \<Rightarrow>
          (case to_documents uuid4 rest w1 of
             (Inl e, w2) \<Rightarrow> (Inl e, w2)
           | (Inr doc_objects, w2) \<Rightarrow> (Inr (doc # doc_objects), w2)))"

text \<open>\<^verbatim>\<open>doc.embedding = embeddings[i].tolist()\<close> for every document, in order.\<close>

fun assign_embeddings :: "document list \<Rightarrow> real list list \<Rightarrow> error + document list" where
  "assign_embeddings [] embeddings = Inr []"
| "assign_embeddings (doc # rest) [] = Inl IndexError"
| "assign_embeddings (doc # rest) (e # es) =
     (case assign_embeddings rest es of
        Inl err \<Rightarrow> Inl err
      | Inr docs \<Rightarrow> Inr (doc\<lparr>embedding := Some e\<rparr> # docs))"

text \<open>
  \<^verbatim>\<open>os.path.join\<close> of two parts, and \<^verbatim>\<open>_save_raw_document\<close>, whose failure to write is
  not caught.
\<close>

definition path_join :: "string \<Rightarrow> string \<Rightarrow> string" where
  "path_join a b =
     (if b \<noteq> [] \<and> hd b = CHR ''/'' then b
      else if a = [] \<or> last a = CHR ''/'' then a @ b
      else a @ ''/'' @ b)"

definition save_raw_document :: "document \<Rightarrow> world \<Rightarrow> error + world" where
  "save_raw_document doc w =
     write_file (path_join RAW_DOCUMENTS_PATH (doc_id doc @ ''.json'')) (JsonFile (doc_copy doc)) w"

fun save_raw_documents :: "document list \<Rightarrow> world \<Rightarrow> (error + unit) \<times> world" where
  "save_raw_documents [] w = (Inr (), w)"
| "save_raw_documents (doc # rest) w =
     (case save_raw_document doc w of
        Inl e \<Rightarrow> (Inl e, w)
      | Inr w1 \<Rightarrow> save_raw_documents rest w1)"

definition ingest_documents ::
  "(nat \<Rightarrow> string) \<Rightarrow> encoder \<Rightarrow> vector_store \<Rightarrow> world \<Rightarrow> ingest_item list \<Rightarrow>
   (error + string list) \<times> vector_store \<times> world" where
  "ingest_documents uuid4 encode s w docs =
     (if docs = [] then (Inr [], s, w)
      else
        case to_documents uuid4 docs w of
          (Inl e, w1) \<Rightarrow> (Inl e, s, w1)
        | (Inr doc_objects, w1) \<Rightarrow>
            (case get_embeddings encode (Strs (map content doc_objects)) w1 of
               (Inl e, w2) \<Rightarrow> (Inl e, s, w2)
             | (Inr embeddings, w2) \<Rightarrow>
                 (case assign_embeddings doc_objects embeddings of
                    Inl e \<Rightarrow> (Inl e, s, w2)
                  | Inr embedded \<Rightarrow>
                      (case save_raw_documents embedded w2 of
                         (Inl e, w3) \<Rightarrow> (Inl e, s, w3)
                       | (Inr _, w3) \<Rightarrow>
                           (case add_documents s w3 embedded of
                              (Inl e, s1, w4) \<Rightarrow> (Inl e, s1, w4)
                            | (Inr added_ids, s1, w4) \<Rightarrow>
                                (Inr added_ids, s1,
                                 logger (Info_Ingested (length added_ids)) w4))))))"

text \<open>
  \<^verbatim>\<open>retrieve_documents\<close>. \<^verbatim>\<open>top_k or settings.TOP_K_RETRIEVAL\<close> takes the default for
  \<^verbatim>\<open>None\<close> and for \<open>0\<close>. The loop writes the score into the dictionary that the store
  holds and appends that same dictionary to the result, so the result is a list of
  references into \<^verbatim>\<open>self.documents\<close> (here: their keys), read when the function returns.
\<close>

fun hydrate ::
  "doc_data pydict \<Rightarrow> (string \<times> real) list \<Rightarrow> doc_data pydict \<times> string list" where
  "hydrate dct [] = (dct, [])"
| "hydrate dct ((did, score) # rest) =
     (case map_of dct did of
        None \<Rightarrow> hydrate dct rest
      | Some doc_data \<Rightarrow>
          (let (dct1, refs) =
                 hydrate (AList.update did (doc_data\<lparr>similarity_score := Some score\<rparr>) dct) rest
           in (dct1, did # refs)))"

definition retrieve_documents ::
  "encoder \<Rightarrow> vector_store \<Rightarrow> world \<Rightarrow> string \<Rightarrow> int option \<Rightarrow>
   (error + doc_data list) \<times> vector_store \<times> world" where
  "retrieve_documents encode s w query top_k =
     (let top_k1 = (case top_k of None \<Rightarrow> TOP_K_RETRIEVAL
                    | Some k \<Rightarrow> if k = 0 then TOP_K_RETRIEVAL else k)
      in case get_embeddings encode (Str query) w of
           (Inl e, w1) \<Rightarrow> (Inl e, s, w1)
         | (Inr query_embedding, w1) \<Rightarrow>
             (case search s (Array2 query_embedding) top_k1 of
                Inl e \<Rightarrow> (Inl e, s, w1)
              | Inr results \<Rightarrow>
                  (let (dct, refs) = hydrate (documents s) results;
                       retrieved_docs = List.map_filter (map_of dct) refs
                   in (Inr retrieved_docs, s\<lparr>documents := dct\<rparr>,
                       logger (Info_Retrieved (length retrieved_docs) query) w1))))"

section \<open>The answer service: \<^verbatim>\<open>app/services/llm_service.py\<close>\<close>













section \<open>The retrieval service: \<^verbatim>\<open>app/services/retrieval_service.py\<close>\<close>

text \<open>
  \<^verbatim>\<open>process_query\<close>; the two readings of the clock are arguments. A
  \<^verbatim>\<open>RetrievedDocument\<close> has a score that is a float, \<open>0.0\<close> when the key is missing.
\<close>

record retrieved_document = doc_fields +
  score :: real




section \<open>Runs and example data\<close>

text \<open>
  \<open>resolve_position\<close> resolves an ordinal the way \<^verbatim>\<open>search\<close> does. \<open>add_all\<close> calls
  \<^verbatim>\<open>add_documents\<close> once per batch and records, in order, the identifier of every
  vector that went into the index (the list each successful call returns).
\<close>

definition resolve_position :: "vector_store \<Rightarrow> int \<Rightarrow> error + string" where
  "resolve_position s i = getitem (keys (documents s)) i"

fun add_all ::
  "vector_store \<Rightarrow> world \<Rightarrow> string list \<Rightarrow> document list list \<Rightarrow>
   vector_store \<times> world \<times> string list" where
  "add_all s w inserted [] = (s, w, inserted)"
| "add_all s w inserted (batch # rest) =
     (case add_documents s w batch of
        (Inl e, s1, w1) \<Rightarrow> add_all s1 w1 inserted rest
      | (Inr doc_ids, s1, w1) \<Rightarrow> add_all s1 w1 (inserted @ doc_ids) rest)"

definition empty_world :: world where
  "empty_world = \<lparr>files = Map.empty, unwritable = {}, logs = [], embed_calls = [], uuid_count = 0\<rparr>"

definition new_store :: "nat \<Rightarrow> string \<Rightarrow> vector_store" where
  "new_store dm path = \<lparr>dimension = dm, store_path = path, index = IndexFlatL2 dm, documents = []\<rparr>"

definition mk_doc :: "string \<Rightarrow> real list \<Rightarrow> document" where
  "mk_doc i e = \<lparr>title = i, content = i, metadata = Some [], doc_id = i, embedding = Some e\<rparr>"

definition mk_data :: "string \<Rightarrow> doc_data" where
  "mk_data i = \<lparr>title = i, content = i, metadata = Some [], doc_id = i, similarity_score = None\<rparr>"

definition ex_store :: vector_store where
  "ex_store =
     \<lparr>dimension = 1, store_path = ''data/vs'',
      index = \<lparr>index_d = 1, xb = [[0], [5], [3]]\<rparr>,
      documents = [(''a'', mk_data ''a''), (''b'', mk_data ''b''), (''c'', mk_data ''c'')]\<rparr>"

definition readonly_world :: world where
  "readonly_world = empty_world\<lparr>unwritable := {''data/vs.index'', ''data/vs.pkl''}\<rparr>"

definition failing_encode :: encoder where
  "failing_encode batch = Inl (EmbeddingError ''model unavailable'')"

definition unit_encode :: encoder where
  "unit_encode batch = Inr (map (\<lambda>t. [real (length t)]) batch)"

definition const_uuid4 :: "nat \<Rightarrow> string" where
  "const_uuid4 n = ''uuid-'' @ replicate n CHR ''x''"




section \<open>Search\<close>


lemma knn_within:
  "k \<le> ntotal idx \<Longrightarrow>
   knn idx k q = take k (sort_key fst (zip (map (l2sqr q) (xb idx)) (map int [0..<ntotal idx])))"
  by (simp add: knn_def Let_def ntotal_def)


lemma knn_labels:
  assumes "k \<le> ntotal idx" and "(dst, i) \<in> set (knn idx k q)"
  shows "0 \<le> i \<and> i < int (ntotal idx)"
proof -
  from assms have "(dst, i) \<in> set (zip (map (l2sqr q) (xb idx)) (map int [0..<ntotal idx]))"
    by (auto simp: knn_within dest: in_set_takeD)
  then have "i \<in> set (map int [0..<ntotal idx])"
    by (rule set_zip_rightD)
  then show ?thesis by auto
qed



lemma search_nonempty:
  assumes "ntotal (index s) \<noteq> 0"
  shows "search s q k =
     (let rows = (case q of Array1 v \<Rightarrow> [v] | Array2 m \<Rightarrow> m)
      in if (\<exists>r \<in> set rows. length r \<noteq> index_d (index s)) \<or> k \<le> 0 then Inl AssertionError
         else case rows of
                [] \<Rightarrow> Inl IndexError
              | r # _ \<Rightarrow>
                  map_results (keys (documents s))
                    (knn (index s) (nat (min k (int (ntotal (index s))))) r))"
  using assms
  by (auto simp: search_def faiss_search_def Let_def split: ndarray.splits list.splits)



lemmas search_eval =
  search_def faiss_search_def knn_def ntotal_def l2sqr_def keys_def getitem_def Let_def
  upt_rec IndexFlatL2_def



section \<open>Adding documents and saving\<close>

lemma add_loop_eq:
  "add_loop docs (embeddings, doc_ids, dct, lg) =
     (embeddings @ List.map_filter embedding docs,
      doc_ids @ map doc_id (filter (\<lambda>d. embedding d \<noteq> None) docs),
      fold (\<lambda>d. AList.update (doc_id d) (doc_copy d)) (filter (\<lambda>d. embedding d \<noteq> None) docs) dct,
      lg @ map (\<lambda>d. Warning_NoEmbedding (doc_id d)) (filter (\<lambda>d. embedding d = None) docs))"
  by (induction docs arbitrary: embeddings doc_ids dct lg)
     (auto simp: List.map_filter_simps split: option.splits)

lemma np_array_same_length:
  "\<forall>r \<in> set rows. length r = n \<Longrightarrow> np_array rows = Inr rows"
  by (cases rows) (auto simp: np_array_def)

lemma add_documents_ok:
  assumes present: "List.map_filter embedding docs \<noteq> []"
    and dims: "\<forall>e \<in> set (List.map_filter embedding docs). length e = index_d (index s)"
  shows "add_documents s w docs =
     (let present = filter (\<lambda>d. embedding d \<noteq> None) docs;
          s' = s\<lparr>documents := fold (\<lambda>d. AList.update (doc_id d) (doc_copy d)) present (documents s),
                 index := (index s)\<lparr>xb := xb (index s) @ List.map_filter embedding docs\<rparr>\<rparr>
      in (Inr (map doc_id present), s',
          save s' (w\<lparr>logs := logs w @ map (\<lambda>d. Warning_NoEmbedding (doc_id d))
                                          (filter (\<lambda>d. embedding d = None) docs)\<rparr>)))"
proof -
  from present have "docs \<noteq> []" by (auto simp: List.map_filter_simps)
  moreover from dims have "np_array (List.map_filter embedding docs) = Inr (List.map_filter embedding docs)"
    by (rule np_array_same_length)
  ultimately show ?thesis using present dims
    by (simp add: add_documents_def add_loop_eq faiss_add_def Let_def)
qed

lemma save_logs_failure:
  "index_path s \<in> unwritable w \<or> docs_path s \<in> unwritable w \<Longrightarrow>
   logs (save s w) = logs w @ [Error_Saving OSError]"
  by (auto simp: save_def write_file_def logger_def)

lemma keys_fold_update:
  "fst ` set (fold (\<lambda>d. AList.update (doc_id d) (doc_copy d)) ds dct) = fst ` set dct \<union> doc_id ` set ds"
  by (induction ds arbitrary: dct) (auto simp: dom_update)

lemma store_paths_update [simp]:
  "index_path (s\<lparr>documents := dct\<rparr>) = index_path s"
  "index_path (s\<lparr>index := idx\<rparr>) = index_path s"
  "docs_path (s\<lparr>documents := dct\<rparr>) = docs_path s"
  "docs_path (s\<lparr>index := idx\<rparr>) = docs_path s"
  by (simp_all add: index_path_def docs_path_def)

lemmas fixture_defs =
  ex_store_def mk_data_def mk_doc_def empty_world_def readonly_world_def new_store_def
  failing_encode_def unit_encode_def const_uuid4_def index_path_def docs_path_def

text \<open>
  C6. Given no documents, \<^verbatim>\<open>ingest_documents\<close> and \<^verbatim>\<open>add_documents\<close> return the empty list
  and leave the store and the whole world as they were: no file is written, nothing is
  logged, and the embedding model is not called.
\<close>

theorem empty_ingest_is_noop:
  "ingest_documents uuid4 encode s w [] = (Inr [], s, w) \<and> add_documents s w [] = (Inr [], s, w)"
  by (simp add: ingest_documents_def add_documents_def)

text \<open>
  C8. When a batch with at least one embedding, all of the index dimension, is added and
  one of the two artifacts cannot be written, \<^verbatim>\<open>add_documents\<close> still returns the
  identifiers of all documents that had an embedding, the index holds their vectors, the
  mapping holds their entries, and the last log record is the save error.
\<close>

theorem save_failure_keeps_added_documents:
  assumes fail: "index_path s \<in> unwritable w \<or> docs_path s \<in> unwritable w"
    and present: "List.map_filter embedding docs \<noteq> []"
    and dims: "\<forall>e \<in> set (List.map_filter embedding docs). length e = index_d (index s)"
  shows "\<exists>s' w'.
     add_documents s w docs = (Inr (map doc_id (filter (\<lambda>d. embedding d \<noteq> None) docs)), s', w') \<and>
     xb (index s') = xb (index s) @ List.map_filter embedding docs \<and>
     documents s' =
       fold (\<lambda>d. AList.update (doc_id d) (doc_copy d))
         (filter (\<lambda>d. embedding d \<noteq> None) docs) (documents s) \<and>
     (\<forall>d \<in> set docs. embedding d \<noteq> None \<longrightarrow> get_document s' (doc_id d) \<noteq> None) \<and>
     last (logs w') = Error_Saving OSError"
proof -
  let ?present = "filter (\<lambda>d. embedding d \<noteq> None) docs"
  let ?dct = "fold (\<lambda>d. AList.update (doc_id d) (doc_copy d)) ?present (documents s)"
  let ?s' = "s\<lparr>documents := ?dct,
               index := (index s)\<lparr>xb := xb (index s) @ List.map_filter embedding docs\<rparr>\<rparr>"
  let ?w1 = "w\<lparr>logs := logs w @ map (\<lambda>d. Warning_NoEmbedding (doc_id d))
                                    (filter (\<lambda>d. embedding d = None) docs)\<rparr>"
  have run: "add_documents s w docs = (Inr (map doc_id ?present), ?s', save ?s' ?w1)"
    using add_documents_ok [OF present dims] by (simp add: Let_def)
  have "index_path ?s' \<in> unwritable ?w1 \<or> docs_path ?s' \<in> unwritable ?w1"
    using fail by simp
  then have logged: "last (logs (save ?s' ?w1)) = Error_Saving OSError"
    by (simp add: save_logs_failure)
  have found: "\<forall>d \<in> set docs. embedding d \<noteq> None \<longrightarrow> get_document ?s' (doc_id d) \<noteq> None"
  proof (intro ballI impI)
    fix d assume "d \<in> set docs" and "embedding d \<noteq> None"
    then have "doc_id d \<in> fst ` set ?dct"
      by (simp add: keys_fold_update)
    then show "get_document ?s' (doc_id d) \<noteq> None"
      by (simp add: get_document_def map_of_eq_None_iff)
  qed
  have "xb (index ?s') = xb (index s) @ List.map_filter embedding docs" by simp
  moreover have "documents ?s' = ?dct" by simp
  ultimately show ?thesis using run logged found by blast
qed

theorem save_failure_keeps_added_documents_witness:
  "index_path ex_store \<in> unwritable readonly_world \<and>
   (\<exists>s' w'. add_documents ex_store readonly_world [mk_doc ''d'' [7]] = (Inr [''d''], s', w') \<and>
      xb (index s') = [[0], [5], [3], [7]] \<and>
      get_document s' ''d'' = Some (mk_data ''d'') \<and>
      last (logs w') = Error_Saving OSError)"
proof -
  have fail: "index_path ex_store \<in> unwritable readonly_world \<or>
      docs_path ex_store \<in> unwritable readonly_world"
    by (simp add: fixture_defs)
  have present: "List.map_filter embedding [mk_doc ''d'' [7]] \<noteq> []"
    by (simp add: List.map_filter_simps mk_doc_def)
  have dims: "\<forall>e \<in> set (List.map_filter embedding [mk_doc ''d'' [7]]). length e = index_d (index ex_store)"
    by (simp add: List.map_filter_simps fixture_defs)
  from save_failure_keeps_added_documents [OF fail present dims]
  obtain s' w' where
    "add_documents ex_store readonly_world [mk_doc ''d'' [7]] =
       (Inr (map doc_id (filter (\<lambda>d. embedding d \<noteq> None) [mk_doc ''d'' [7]])), s', w')"
    "xb (index s') = xb (index ex_store) @ List.map_filter embedding [mk_doc ''d'' [7]]"
    "documents s' =
       fold (\<lambda>d. AList.update (doc_id d) (doc_copy d))
         (filter (\<lambda>d. embedding d \<noteq> None) [mk_doc ''d'' [7]]) (documents ex_store)"
    "last (logs w') = Error_Saving OSError"
    by blast
  then have
    "add_documents ex_store readonly_world [mk_doc ''d'' [7]] = (Inr [''d''], s', w') \<and>
     xb (index s') = [[0], [5], [3], [7]] \<and>
     get_document s' ''d'' = Some (mk_data ''d'') \<and>
     last (logs w') = Error_Saving OSError"
    by (simp add: List.map_filter_simps fixture_defs get_document_def doc_copy_def)
  moreover have "index_path ex_store \<in> unwritable readonly_world"
    by (simp add: fixture_defs)
  ultimately show ?thesis by blast
qed

section \<open>Saving and loading\<close>

lemma index_docs_paths_differ: "index_path s \<noteq> docs_path s"
  by (simp add: index_path_def docs_path_def)

lemma save_ok:
  assumes "index_path s \<notin> unwritable w" and "docs_path s \<notin> unwritable w"
  shows "save s w =
     logger (Info_Saved (length (documents s)))
       (w\<lparr>files := (files w)(index_path s \<mapsto> IndexFile (index s),
                              docs_path s \<mapsto> PickleFile (documents s))\<rparr>)"
  using assms by (simp add: save_def write_file_def)

lemma dirname_Nil [simp]: "dirname [] = []"
  by (simp add: dirname_def)

lemma search_cong:
  "index s' = index s \<Longrightarrow> documents s' = documents s \<Longrightarrow> search s' q k = search s q k"
  by (simp add: search_def split: sum.splits list.splits)

lemma initialize_store_loads:
  assumes dir: "dirname path \<noteq> []"
    and fi: "files w (path @ ''.index'') = Some (IndexFile idx)"
    and fd: "files w (path @ ''.pkl'') = Some (PickleFile dct)"
  shows "initialize_store dm path w =
     (Inr \<lparr>dimension = dm, store_path = path, index = idx, documents = dct\<rparr>,
      logger (Info_Loaded (length dct) (path @ ''.pkl'')) w)"
  using assms
  by (simp add: initialize_store_def makedirs_def path_exists_def read_index_def pickle_load_def
      index_path_def docs_path_def)

text \<open>
  C3. For a store whose path has a directory part (as every constructed store has) and
  whose two artifacts can be written, \<^verbatim>\<open>_save\<close> followed by a new \<^verbatim>\<open>VectorStore\<close> at the
  same path, of any dimension argument, gives a store with the same index and the same
  mapping, so every search gives the same identifiers and distances as before.
\<close>

theorem save_load_roundtrip:
  assumes wi: "index_path s \<notin> unwritable w" and wd: "docs_path s \<notin> unwritable w"
    and dir: "dirname (store_path s) \<noteq> []"
  shows "\<exists>s' w'.
     VectorStore dm (Some (store_path s)) (save s w) = (Inr s', w') \<and>
     index s' = index s \<and> documents s' = documents s \<and>
     (\<forall>q k. search s' q k = search s q k)"
proof -
  from dir have ne: "store_path s \<noteq> []" by auto
  let ?s' = "\<lparr>dimension = dm, store_path = store_path s, index = index s, documents = documents s\<rparr>"
  have fi: "files (save s w) (store_path s @ ''.index'') = Some (IndexFile (index s))"
    by (simp add: save_ok [OF wi wd] logger_def index_path_def docs_path_def)
  have fd: "files (save s w) (store_path s @ ''.pkl'') = Some (PickleFile (documents s))"
    by (simp add: save_ok [OF wi wd] logger_def index_path_def docs_path_def)
  have "VectorStore dm (Some (store_path s)) (save s w) =
      (Inr ?s', logger (Info_Loaded (length (documents s)) (store_path s @ ''.pkl'')) (save s w))"
    using ne by (simp add: VectorStore_def initialize_store_loads [OF dir fi fd])
  moreover have "\<forall>q k. search ?s' q k = search s q k"
    by (intro allI search_cong) simp_all
  moreover have "index ?s' = index s" and "documents ?s' = documents s" by simp_all
  ultimately show ?thesis by blast
qed

theorem save_load_roundtrip_witness:
  "index_path ex_store \<notin> unwritable empty_world \<and>
   docs_path ex_store \<notin> unwritable empty_world \<and>
   dirname (store_path ex_store) = ''data'' \<and>
   (\<exists>s' w'. VectorStore 1 (Some ''data/vs'') (save ex_store empty_world) = (Inr s', w') \<and>
      documents s' = documents ex_store \<and>
      search s' (Array1 [4]) 2 = Inr [(''b'', 1), (''c'', 1)])"
proof -
  have wi: "index_path ex_store \<notin> unwritable empty_world"
    and wd: "docs_path ex_store \<notin> unwritable empty_world"
    by (simp_all add: empty_world_def)
  have dir: "dirname (store_path ex_store) = ''data''"
    by (simp add: ex_store_def dirname_def rstrip_sep_def)
  then have dir': "dirname (store_path ex_store) \<noteq> []" by simp
  have found: "search ex_store (Array1 [4]) 2 = Inr [(''b'', 1), (''c'', 1)]"
    by (simp add: ex_store_def search_eval)
  have path: "store_path ex_store = ''data/vs''"
    by (simp add: ex_store_def)
  from save_load_roundtrip [OF wi wd dir', of 1]
  obtain s' w' where
    "VectorStore 1 (Some (store_path ex_store)) (save ex_store empty_world) = (Inr s', w')"
    "documents s' = documents ex_store"
    "\<forall>q k. search s' q k = search ex_store q k"
    by blast
  with found path have
    "VectorStore 1 (Some ''data/vs'') (save ex_store empty_world) = (Inr s', w') \<and>
     documents s' = documents ex_store \<and>
     search s' (Array1 [4]) 2 = Inr [(''b'', 1), (''c'', 1)]"
    by simp
  with wi wd dir show ?thesis by blast
qed

lemma initialize_store_fail_open:
  assumes dir: "dirname path \<noteq> []"
    and bad: "(\<nexists>idx. files w (path @ ''.index'') = Some (IndexFile idx)) \<or>
              (\<nexists>dct. files w (path @ ''.pkl'') = Some (PickleFile dct))"
  shows "\<exists>w'. initialize_store dm path w = (Inr (new_store dm path), w') \<and> files w' = files w"
  using assms
  by (auto simp: initialize_store_def makedirs_def path_exists_def read_index_def pickle_load_def
      create_new_index_def logger_def index_path_def docs_path_def new_store_def Let_def
      split: option.splits file_content.splits)

lemma initialize_store_fail_open_corrupt_pickle:
  "\<exists>w'. initialize_store 1 ''data/vs''
          (empty_world\<lparr>files := [''data/vs.index'' \<mapsto> IndexFile (index ex_store),
                                 ''data/vs.pkl'' \<mapsto> Corrupt]\<rparr>) =
        (Inr (new_store 1 ''data/vs''), w') \<and>
        last (logs w') = Info_Created \<and> Error_Loading UnpicklingError \<in> set (logs w')"
  by (simp add: initialize_store_def makedirs_def dirname_def rstrip_sep_def path_exists_def
      read_index_def pickle_load_def create_new_index_def logger_def new_store_def
      empty_world_def index_path_def docs_path_def)

text \<open>
  C5. A store location without a directory part, here \<^verbatim>\<open>vector_store\<close>, with no artifact on
  disk: \<^verbatim>\<open>os.path.dirname\<close> gives the empty string, \<^verbatim>\<open>os.makedirs\<close> raises on it, and the
  raise is outside the \<^verbatim>\<open>try\<close> of \<^verbatim>\<open>_initialize_store\<close>, so the constructor raises instead of
  giving a fresh store. (For a location with a directory part the fresh store is
  \<open>initialize_store_fail_open\<close>.)
\<close>

theorem initialize_store_raises_without_directory:
  "VectorStore EMBEDDING_DIMENSION (Some ''vector_store'') empty_world =
     (Inl FileNotFoundError, empty_world)"
  by (simp add: VectorStore_def initialize_store_def makedirs_def dirname_def)

section \<open>Ingestion\<close>

lemma to_document_frame:
  "to_document uuid4 item w = (r, w1) \<Longrightarrow> w1 = w\<lparr>uuid_count := uuid_count w1\<rparr>"
  by (cases item)
     (auto simp: to_document_def draw_uuid_def Let_def split: option.splits if_splits prod.splits)

lemma to_documents_frame:
  "to_documents uuid4 docs w = (r, w1) \<Longrightarrow> w1 = w\<lparr>uuid_count := uuid_count w1\<rparr>"
proof (induction docs arbitrary: w r w1)
  case Nil
  then show ?case by simp
next
  case (Cons item rest)
  obtain r0 w0 where step: "to_document uuid4 item w = (r0, w0)"
    by (cases "to_document uuid4 item w")
  then have w0: "w0 = w\<lparr>uuid_count := uuid_count w0\<rparr>"
    by (rule to_document_frame)
  show ?case
  proof (cases r0)
    case (Inl e)
    with Cons.prems step w0 show ?thesis by simp
  next
    case (Inr doc)
    obtain r2 w2 where rec: "to_documents uuid4 rest w0 = (r2, w2)"
      by (cases "to_documents uuid4 rest w0")
    then have "w2 = w0\<lparr>uuid_count := uuid_count w2\<rparr>"
      by (rule Cons.IH)
    with w0 have "w2 = w\<lparr>uuid_count := uuid_count w2\<rparr>"
      by (metis world.surjective world.update_convs(5))
    moreover from Cons.prems step Inr rec have "w1 = w2"
      by (auto split: sum.splits)
    ultimately show ?thesis by simp
  qed
qed

text \<open>
  C4. When a non-empty batch is converted to documents and the embedding model raises on
  their contents, \<^verbatim>\<open>ingest_documents\<close> raises that same error, the store (index and
  mapping) is the one it started with, and no file has been written. The model was
  called once, with the whole batch.
\<close>

theorem ingest_embedding_failure_inserts_nothing:
  assumes nonempty: "docs \<noteq> []"
    and conv: "to_documents uuid4 docs w = (Inr doc_objects, w1)"
    and fail: "encode (map content doc_objects) = Inl e"
  shows "\<exists>w'. ingest_documents uuid4 encode s w docs = (Inl e, s, w') \<and>
           files w' = files w \<and>
           embed_calls w' = embed_calls w @ [map content doc_objects]"
proof -
  from conv have w1: "w1 = w\<lparr>uuid_count := uuid_count w1\<rparr>"
    by (rule to_documents_frame)
  let ?w' = "w1\<lparr>embed_calls := embed_calls w1 @ [map content doc_objects]\<rparr>"
  have "ingest_documents uuid4 encode s w docs = (Inl e, s, ?w')"
    using nonempty conv fail by (simp add: ingest_documents_def get_embeddings_def)
  moreover have "files ?w' = files w" and "embed_calls ?w' = embed_calls w @ [map content doc_objects]"
    by (subst w1, simp)+
  ultimately show ?thesis by blast
qed

theorem ingest_embedding_failure_inserts_nothing_witness:
  "\<exists>w'. ingest_documents const_uuid4 failing_encode ex_store empty_world
           [Input \<lparr>title = ''T'', content = ''text'', metadata = None\<rparr>, Doc (mk_doc ''d'' [7])] =
         (Inl (EmbeddingError ''model unavailable''), ex_store, w') \<and>
        files w' = files empty_world \<and>
        embed_calls w' = [[''text'', ''d'']]"
proof -
  let ?docs = "[Input \<lparr>title = ''T'', content = ''text'', metadata = None\<rparr>, Doc (mk_doc ''d'' [7])]"
  let ?objs = "[\<lparr>title = ''T'', content = ''text'', metadata = None, doc_id = ''uuid-'',
                 embedding = None\<rparr>, mk_doc ''d'' [7]]"
  have nonempty: "?docs \<noteq> []" by simp
  have conv: "to_documents const_uuid4 ?docs empty_world = (Inr ?objs, empty_world\<lparr>uuid_count := 1\<rparr>)"
    by (simp add: to_document_def draw_uuid_def fixture_defs)
  have fail: "failing_encode (map content ?objs) = Inl (EmbeddingError ''model unavailable'')"
    by (simp add: failing_encode_def)
  from ingest_embedding_failure_inserts_nothing
    [where encode = failing_encode and s = ex_store, OF nonempty conv fail]
  show ?thesis by (simp add: mk_doc_def empty_world_def)
qed


section \<open>Retrieval\<close>

lemma map_filter_cong_set:
  "(\<And>x. x \<in> set xs \<Longrightarrow> f x = g x) \<Longrightarrow> List.map_filter f xs = List.map_filter g xs"
  by (induction xs) (auto simp: List.map_filter_simps split: option.splits)

lemma map_filter_filter_absorb:
  "(\<And>x. x \<in> set xs \<Longrightarrow> \<not> P x \<Longrightarrow> f x = None) \<Longrightarrow>
   List.map_filter f (filter P xs) = List.map_filter f xs"
  by (induction xs) (auto simp: List.map_filter_simps split: option.splits)

lemma map_filter_map_fst:
  "List.map_filter f (map fst xs) = List.map_filter (\<lambda>x. f (fst x)) xs"
  by (induction xs) (auto simp: List.map_filter_simps split: option.splits)

lemma hydrate_char:
  assumes "distinct (map fst results)" and "hydrate dct results = (dct', refs)"
  shows "refs = map fst (filter (\<lambda>r. map_of dct (fst r) \<noteq> None) results) \<and>
         (\<forall>x. map_of dct' x =
            (case map_of results x of
               None \<Rightarrow> map_of dct x
             | Some sc \<Rightarrow> map_option (\<lambda>d. d\<lparr>similarity_score := Some sc\<rparr>) (map_of dct x)))"
  using assms
proof (induction results arbitrary: dct dct' refs)
  case Nil
  then show ?case by simp
next
  case (Cons r rest)
  obtain did sc where r: "r = (did, sc)" by (cases r)
  from Cons.prems(1) r have dist: "distinct (map fst rest)" and fresh: "did \<notin> fst ` set rest"
    by auto
  from fresh have none: "map_of rest did = None"
    by (simp add: map_of_eq_None_iff)
  show ?case
  proof (cases "map_of dct did")
    case None
    with Cons.prems(2) r have "hydrate dct rest = (dct', refs)" by simp
    from Cons.IH [OF dist this] None r none show ?thesis
      by (auto split: option.splits)
  next
    case (Some d)
    let ?dct1 = "AList.update did (d\<lparr>similarity_score := Some sc\<rparr>) dct"
    obtain refs1 where h: "hydrate ?dct1 rest = (dct', refs1)" and refs: "refs = did # refs1"
      using Cons.prems(2) r Some by (auto split: prod.splits)
    have same_filter: "filter (\<lambda>r. map_of ?dct1 (fst r) \<noteq> None) rest =
        filter (\<lambda>r. map_of dct (fst r) \<noteq> None) rest"
      using Some by (intro filter_cong refl) (simp add: update_conv')
    from Cons.IH [OF dist h] have
      refs1: "refs1 = map fst (filter (\<lambda>r. map_of ?dct1 (fst r) \<noteq> None) rest)" and
      final: "\<And>x. map_of dct' x =
            (case map_of rest x of
               None \<Rightarrow> map_of ?dct1 x
             | Some sc' \<Rightarrow> map_option (\<lambda>d. d\<lparr>similarity_score := Some sc'\<rparr>) (map_of ?dct1 x))"
      by auto
    have "refs = did # map fst (filter (\<lambda>r. map_of dct (fst r) \<noteq> None) rest)"
      unfolding refs refs1 same_filter ..
    then have "refs = map fst (filter (\<lambda>r. map_of dct (fst r) \<noteq> None) (r # rest))"
      using r Some by simp
    moreover have "\<forall>x. map_of dct' x =
            (case map_of (r # rest) x of
               None \<Rightarrow> map_of dct x
             | Some sc \<Rightarrow> map_option (\<lambda>d. d\<lparr>similarity_score := Some sc\<rparr>) (map_of dct x))"
    proof
      fix x
      show "map_of dct' x =
            (case map_of (r # rest) x of
               None \<Rightarrow> map_of dct x
             | Some sc \<Rightarrow> map_option (\<lambda>d. d\<lparr>similarity_score := Some sc\<rparr>) (map_of dct x))"
      proof (cases "x = did")
        case True
        with final [of did] none Some r show ?thesis by (simp add: update_conv')
      next
        case False
        with final [of x] r show ?thesis by (simp add: update_conv' split: option.splits)
      qed
    qed
    ultimately show ?thesis by blast
  qed
qed

lemma hydrate_retrieved:
  assumes dist: "distinct (map fst results)"
  shows "(case hydrate dct results of (dct', refs) \<Rightarrow> List.map_filter (map_of dct') refs) =
         List.map_filter
           (\<lambda>(did, sc). map_option (\<lambda>d. d\<lparr>similarity_score := Some sc\<rparr>) (map_of dct did)) results"
proof -
  obtain dct' refs where h: "hydrate dct results = (dct', refs)"
    by (cases "hydrate dct results")
  let ?g = "\<lambda>(did, sc). map_option (\<lambda>d. d\<lparr>similarity_score := Some sc\<rparr>) (map_of dct did)"
  from hydrate_char [OF dist h] have
    refs: "refs = map fst (filter (\<lambda>r. map_of dct (fst r) \<noteq> None) results)" and
    final: "\<And>x. map_of dct' x =
            (case map_of results x of
               None \<Rightarrow> map_of dct x
             | Some sc \<Rightarrow> map_option (\<lambda>d. d\<lparr>similarity_score := Some sc\<rparr>) (map_of dct x))"
    by auto
  have pointwise: "\<And>r. r \<in> set results \<Longrightarrow> map_of dct' (fst r) = ?g r"
  proof -
    fix r assume "r \<in> set results"
    then have "map_of results (fst r) = Some (snd r)"
      using dist by (simp add: map_of_eq_Some_iff)
    with final [of "fst r"] show "map_of dct' (fst r) = ?g r"
      by (cases r) simp
  qed
  have "List.map_filter (map_of dct') refs =
        List.map_filter (\<lambda>r. map_of dct' (fst r)) (filter (\<lambda>r. map_of dct (fst r) \<noteq> None) results)"
    by (simp add: refs map_filter_map_fst)
  also have "\<dots> = List.map_filter ?g (filter (\<lambda>r. map_of dct (fst r) \<noteq> None) results)"
    by (rule map_filter_cong_set) (simp add: pointwise)
  also have "\<dots> = List.map_filter ?g results"
    by (rule map_filter_filter_absorb) auto
  finally show ?thesis by (simp add: h)
qed


lemma map_results_fst:
  "map_results ks hits = Inr rs \<Longrightarrow> \<forall>h \<in> set hits. 0 \<le> snd h \<Longrightarrow>
   map fst rs = map (\<lambda>h. ks ! nat (snd h)) hits \<and> (\<forall>h \<in> set hits. nat (snd h) < length ks)"
proof (induction ks hits arbitrary: rs rule: map_results.induct)
  case (1 ks)
  then show ?case by simp
next
  case (2 ks distance idx rest)
  from "2.prems"(2) have idx: "0 \<le> idx" and rest: "\<forall>h \<in> set rest. 0 \<le> snd h" by auto
  then have ne: "idx \<noteq> - 1" by simp
  from "2.prems"(1) ne idx obtain did rs' where
    did: "getitem ks idx = Inr did" and rec: "map_results ks rest = Inr rs'"
    and rs: "rs = (did, distance) # rs'"
    by (auto split: sum.splits)
  from did idx have "nat idx < length ks" and "did = ks ! nat idx"
    by (auto simp: getitem_def split: if_splits)
  moreover from "2.IH"(1) [OF ne did rec rest]
  have "map fst rs' = map (\<lambda>h. ks ! nat (snd h)) rest \<and> (\<forall>h \<in> set rest. nat (snd h) < length ks)" .
  ultimately show ?case using rs by simp
qed

lemma distinct_knn_labels:
  assumes "k \<le> ntotal idx"
  shows "distinct (map (\<lambda>h. nat (snd h)) (knn idx k q))"
proof -
  let ?zs = "zip (map (l2sqr q) (xb idx)) (map int [0..<ntotal idx])"
  have "map snd ?zs = map int [0..<ntotal idx]"
    by (simp add: ntotal_def)
  then have "distinct (map snd ?zs)"
    by (simp add: distinct_map inj_on_def)
  then have "distinct (map snd (sort_key fst ?zs))"
    by (simp add: distinct_map)
  then have "distinct (map snd (take k (sort_key fst ?zs)))"
    by (simp add: take_map [symmetric] distinct_take)
  then have d: "distinct (map snd (knn idx k q))"
    by (simp add: knn_within [OF assms])
  have "inj_on nat (set (map snd (knn idx k q)))"
  proof (rule inj_onI)
    fix a b assume a: "a \<in> set (map snd (knn idx k q))" and b: "b \<in> set (map snd (knn idx k q))"
      and eq: "nat a = nat b"
    from a obtain da where "(da, a) \<in> set (knn idx k q)" by auto
    from knn_labels [OF assms this] have "0 \<le> a" by simp
    moreover from b obtain db where "(db, b) \<in> set (knn idx k q)" by auto
    from knn_labels [OF assms this] have "0 \<le> b" by simp
    ultimately show "a = b" using eq by simp
  qed
  with d have "distinct (map nat (map snd (knn idx k q)))"
    by (simp only: distinct_map)
  then show ?thesis by (simp add: comp_def)
qed

lemma search_distinct:
  assumes keys: "distinct (keys (documents s))" and res: "search s q k = Inr rs"
  shows "distinct (map fst rs)"
proof (cases "ntotal (index s) = 0")
  case True
  with res show ?thesis by (simp add: search_def)
next
  case False
  let ?n = "nat (min k (int (ntotal (index s))))"
  let ?ks = "keys (documents s)"
  from res False obtain r where
    mr: "map_results ?ks (knn (index s) ?n r) = Inr rs"
    by (auto simp: search_nonempty Let_def split: if_splits list.splits)
  have le: "?n \<le> ntotal (index s)" by simp
  have nonneg: "\<forall>h \<in> set (knn (index s) ?n r). 0 \<le> snd h"
  proof
    fix h assume "h \<in> set (knn (index s) ?n r)"
    then have "(fst h, snd h) \<in> set (knn (index s) ?n r)" by simp
    from knn_labels [OF le this] show "0 \<le> snd h" by simp
  qed
  from map_results_fst [OF mr nonneg] have
    eq: "map fst rs = map (\<lambda>h. ?ks ! nat (snd h)) (knn (index s) ?n r)" and
    bound: "\<forall>h \<in> set (knn (index s) ?n r). nat (snd h) < length ?ks"
    by auto
  let ?js = "map (\<lambda>h. nat (snd h)) (knn (index s) ?n r)"
  have dj: "distinct ?js" using le by (rule distinct_knn_labels)
  have bj: "\<forall>j \<in> set ?js. j < length ?ks" using bound by auto
  have "inj_on ((!) ?ks) (set ?js)"
    using keys bj by (auto simp: inj_on_def nth_eq_iff_index_eq)
  with dj have "distinct (map ((!) ?ks) ?js)"
    by (simp only: distinct_map)
  then show ?thesis by (simp add: eq comp_def)
qed

text \<open>
  C7. The hydration loop of \<^verbatim>\<open>retrieve_documents\<close>, run on any ranked list of distinct
  identifiers, returns exactly the documents that \<^verbatim>\<open>get_document\<close> finds, in the order of
  that list, each with the distance of its entry as \<^verbatim>\<open>similarity_score\<close>; an identifier that
  is not found is left out and nothing fails. The identifiers that \<^verbatim>\<open>search\<close> returns are
  distinct, so the same holds for \<^verbatim>\<open>retrieve_documents\<close> as a whole whenever the embedding
  and the search succeed.
\<close>

theorem retrieve_documents_hydrates_in_rank_order:
  "(distinct (map fst results) \<longrightarrow>
      (case hydrate dct results of (dct', refs) \<Rightarrow> List.map_filter (map_of dct') refs) =
      List.map_filter
        (\<lambda>(did, sc). map_option (\<lambda>d. d\<lparr>similarity_score := Some sc\<rparr>) (map_of dct did)) results) \<and>
   (distinct (keys (documents s)) \<and> encode [query] = Inr rows \<and> k \<noteq> 0 \<and>
    search s (Array2 rows) k = Inr ranked \<longrightarrow>
      fst (retrieve_documents encode s w query (Some k)) =
      Inr (List.map_filter
             (\<lambda>(did, sc). map_option (\<lambda>d. d\<lparr>similarity_score := Some sc\<rparr>) (get_document s did))
             ranked))"
proof (intro conjI impI)
  assume "distinct (map fst results)"
  then show "(case hydrate dct results of (dct', refs) \<Rightarrow> List.map_filter (map_of dct') refs) =
      List.map_filter
        (\<lambda>(did, sc). map_option (\<lambda>d. d\<lparr>similarity_score := Some sc\<rparr>) (map_of dct did)) results"
    by (rule hydrate_retrieved)
next
  assume a: "distinct (keys (documents s)) \<and> encode [query] = Inr rows \<and> k \<noteq> 0 \<and>
    search s (Array2 rows) k = Inr ranked"
  then have "distinct (map fst ranked)"
    by (auto intro: search_distinct)
  from hydrate_retrieved [OF this, of "documents s"] a
  show "fst (retrieve_documents encode s w query (Some k)) =
      Inr (List.map_filter
             (\<lambda>(did, sc). map_option (\<lambda>d. d\<lparr>similarity_score := Some sc\<rparr>) (get_document s did))
             ranked)"
    by (simp add: retrieve_documents_def get_embeddings_def get_document_def Let_def
        split: prod.splits)
qed


theorem retrieve_documents_hydrates_in_rank_order_witness:
  "distinct (map fst [(''b'', 1 :: real), (''zz'', 2), (''a'', 3)]) \<and>
   (case hydrate (documents ex_store) [(''b'', 1), (''zz'', 2), (''a'', 3)] of
      (dct', refs) \<Rightarrow> List.map_filter (map_of dct') refs) =
     [(mk_data ''b'')\<lparr>similarity_score := Some 1\<rparr>, (mk_data ''a'')\<lparr>similarity_score := Some 3\<rparr>] \<and>
   distinct (keys (documents ex_store)) \<and>
   search ex_store (Array2 [[4]]) 2 = Inr [(''b'', 1), (''c'', 1)] \<and>
   fst (retrieve_documents unit_encode ex_store empty_world ''four'' (Some 2)) =
     Inr [(mk_data ''b'')\<lparr>similarity_score := Some 1\<rparr>, (mk_data ''c'')\<lparr>similarity_score := Some 1\<rparr>]"
proof -
  have d1: "distinct (map fst [(''b'', 1 :: real), (''zz'', 2), (''a'', 3)])" by simp
  have d2: "distinct (keys (documents ex_store))" by (simp add: ex_store_def keys_def)
  have enc: "unit_encode [''four''] = Inr [[4]]" by (simp add: unit_encode_def)
  have found: "search ex_store (Array2 [[4]]) 2 = Inr [(''b'', 1), (''c'', 1)]"
    by (simp add: ex_store_def search_eval)
  note inst = retrieve_documents_hydrates_in_rank_order
    [where results = "[(''b'', 1), (''zz'', 2), (''a'', 3)]" and dct = "documents ex_store"
       and s = ex_store and encode = unit_encode and query = "''four''" and rows = "[[4]]"
       and k = 2 and ranked = "[(''b'', 1), (''c'', 1)]" and w = empty_world]
  from inst d1 have
    "(case hydrate (documents ex_store) [(''b'', 1), (''zz'', 2), (''a'', 3)] of
      (dct', refs) \<Rightarrow> List.map_filter (map_of dct') refs) =
     [(mk_data ''b'')\<lparr>similarity_score := Some 1\<rparr>, (mk_data ''a'')\<lparr>similarity_score := Some 3\<rparr>]"
    by (simp add: List.map_filter_simps ex_store_def)
  moreover from inst d2 enc found have
    "fst (retrieve_documents unit_encode ex_store empty_world ''four'' (Some 2)) =
     Inr [(mk_data ''b'')\<lparr>similarity_score := Some 1\<rparr>, (mk_data ''c'')\<lparr>similarity_score := Some 1\<rparr>]"
    by (simp add: List.map_filter_simps get_document_def ex_store_def)
  ultimately show ?thesis using d1 d2 found by blast
qed




section \<open>Answering\<close>




section \<open>The positional invariant\<close>

text \<open>
  C1. A fresh store receives the batch \<open>a, b\<close> and then the batch \<open>a, c\<close>, the identifier
  \<open>a\<close> occurring again with a new embedding. The index now holds four vectors, inserted
  for \<open>a, b, a, c\<close>, but the mapping has the three keys \<open>a, b, c\<close>: ordinal 2 resolves to
  \<open>c\<close> although the vector there was inserted for \<open>a\<close>, ordinal 3 resolves to nothing, a
  search nearest to ordinal 2 returns \<open>c\<close> with distance 0, and a search nearest to
  ordinal 3 raises \<^verbatim>\<open>IndexError\<close>.
\<close>

theorem add_documents_duplicate_id_breaks_positions:
  "VectorStore 1 (Some ''data/vs'') empty_world =
     (Inr (new_store 1 ''data/vs''), logger Info_Created empty_world) \<and>
   (case add_all (new_store 1 ''data/vs'') (logger Info_Created empty_world) []
           [[mk_doc ''a'' [0], mk_doc ''b'' [5]], [mk_doc ''a'' [3], mk_doc ''c'' [9]]] of
      (s, w, inserted) \<Rightarrow>
        inserted = [''a'', ''b'', ''a'', ''c''] \<and>
        ntotal (index s) = 4 \<and>
        keys (documents s) = [''a'', ''b'', ''c''] \<and>
        resolve_position s 2 = Inr ''c'' \<and> inserted ! 2 = ''a'' \<and>
        resolve_position s 3 = Inl IndexError \<and>
        search s (Array1 [3]) 1 = Inr [(''c'', 0)] \<and>
        search s (Array1 [9]) 1 = Inl IndexError)"
proof -
  have init: "VectorStore 1 (Some ''data/vs'') empty_world =
     (Inr (new_store 1 ''data/vs''), logger Info_Created empty_world)"
    by (simp add: VectorStore_def initialize_store_def makedirs_def dirname_def rstrip_sep_def
        path_exists_def create_new_index_def new_store_def empty_world_def index_path_def
        docs_path_def)
  have run: "\<exists>w. add_all (new_store 1 ''data/vs'') (logger Info_Created empty_world) []
           [[mk_doc ''a'' [0], mk_doc ''b'' [5]], [mk_doc ''a'' [3], mk_doc ''c'' [9]]] =
      (\<lparr>dimension = 1, store_path = ''data/vs'',
        index = \<lparr>index_d = 1, xb = [[0], [5], [3], [9]]\<rparr>,
        documents = [(''a'', mk_data ''a''), (''b'', mk_data ''b''), (''c'', mk_data ''c'')]\<rparr>,
       w, [''a'', ''b'', ''a'', ''c''])"
    by (simp add: add_documents_def np_array_def faiss_add_def doc_copy_def new_store_def
        mk_doc_def mk_data_def IndexFlatL2_def Let_def)
  then obtain w where run': "add_all (new_store 1 ''data/vs'') (logger Info_Created empty_world) []
           [[mk_doc ''a'' [0], mk_doc ''b'' [5]], [mk_doc ''a'' [3], mk_doc ''c'' [9]]] =
      (\<lparr>dimension = 1, store_path = ''data/vs'',
        index = \<lparr>index_d = 1, xb = [[0], [5], [3], [9]]\<rparr>,
        documents = [(''a'', mk_data ''a''), (''b'', mk_data ''b''), (''c'', mk_data ''c'')]\<rparr>,
       w, [''a'', ''b'', ''a'', ''c''])" ..
  show ?thesis
    unfolding run' using init by (simp add: resolve_position_def search_eval)
qed


text \<open>
  With pairwise distinct identifiers and embeddings of the index dimension, the keys of
  the mapping are exactly the identifiers inserted, in order, and every ordinal resolves
  to the identifier inserted there.
\<close>

lemma length_map_filter_embedding:
  "length (List.map_filter embedding b) = length (filter (\<lambda>d. embedding d \<noteq> None) b)"
  by (induction b) (auto simp: List.map_filter_simps split: option.splits)

lemma keys_fold_update_fresh:
  "distinct (keys dct @ map doc_id ds) \<Longrightarrow>
   keys (fold (\<lambda>d. AList.update (doc_id d) (doc_copy d)) ds dct) = keys dct @ map doc_id ds"
proof (induction ds arbitrary: dct)
  case Nil
  then show ?case by simp
next
  case (Cons d ds)
  from Cons.prems have fresh: "doc_id d \<notin> set (map fst dct)"
    by (auto simp: keys_def)
  then have k: "keys (AList.update (doc_id d) (doc_copy d) dct) = keys dct @ [doc_id d]"
    by (simp add: keys_def update_keys)
  with Cons.prems have "distinct (keys (AList.update (doc_id d) (doc_copy d) dct) @ map doc_id ds)"
    by simp
  from Cons.IH [OF this] k show ?case by simp
qed

lemma add_documents_run:
  assumes dims: "\<forall>e \<in> set (List.map_filter embedding b). length e = index_d (index s)"
  shows "\<exists>w1. add_documents s w b =
     (Inr (map doc_id (filter (\<lambda>d. embedding d \<noteq> None) b)),
      s\<lparr>documents := fold (\<lambda>d. AList.update (doc_id d) (doc_copy d))
                        (filter (\<lambda>d. embedding d \<noteq> None) b) (documents s),
        index := (index s)\<lparr>xb := xb (index s) @ List.map_filter embedding b\<rparr>\<rparr>,
      w1)"
proof (cases "List.map_filter embedding b = []")
  case False
  from add_documents_ok [OF False dims] show ?thesis by (simp add: Let_def)
next
  case True
  then have "length (List.map_filter embedding b) = 0" by simp
  then have "length (filter (\<lambda>d. embedding d \<noteq> None) b) = 0"
    by (simp only: length_map_filter_embedding)
  then have none: "filter (\<lambda>d. embedding d \<noteq> None) b = []"
    by (simp only: length_0_conv)
  show ?thesis
  proof (cases "b = []")
    case True
    then show ?thesis by (simp add: add_documents_def List.map_filter_simps)
  next
    case False
    with True none show ?thesis
      by (simp add: add_documents_def add_loop_eq Let_def)
  qed
qed

lemma add_all_positional:
  assumes "keys (documents s) = inserted" and "ntotal (index s) = length inserted"
    and "distinct (inserted @ concat (map (\<lambda>b. map doc_id (filter (\<lambda>d. embedding d \<noteq> None) b)) batches))"
    and "\<forall>b \<in> set batches. \<forall>e \<in> set (List.map_filter embedding b). length e = index_d (index s)"
    and "add_all s w inserted batches = (s', w', inserted')"
  shows "keys (documents s') = inserted' \<and> ntotal (index s') = length inserted'"
  using assms
proof (induction batches arbitrary: s w inserted)
  case Nil
  then show ?case by simp
next
  case (Cons b batches)
  let ?present = "filter (\<lambda>d. embedding d \<noteq> None) b"
  let ?s1 = "s\<lparr>documents := fold (\<lambda>d. AList.update (doc_id d) (doc_copy d)) ?present (documents s),
               index := (index s)\<lparr>xb := xb (index s) @ List.map_filter embedding b\<rparr>\<rparr>"
  from Cons.prems(4) have "\<forall>e \<in> set (List.map_filter embedding b). length e = index_d (index s)"
    by simp
  from add_documents_run [OF this] obtain w1 where
    step: "add_documents s w b = (Inr (map doc_id ?present), ?s1, w1)" by blast
  with Cons.prems(5) have rest: "add_all ?s1 w1 (inserted @ map doc_id ?present) batches = (s', w', inserted')"
    by simp
  from Cons.prems(1,3) have "distinct (keys (documents s) @ map doc_id ?present)"
    by auto
  then have k: "keys (documents ?s1) = inserted @ map doc_id ?present"
    using Cons.prems(1) by (simp add: keys_fold_update_fresh)
  have n: "ntotal (index ?s1) = length (inserted @ map doc_id ?present)"
    using Cons.prems(2) by (simp add: ntotal_def length_map_filter_embedding)
  have d: "distinct ((inserted @ map doc_id ?present) @
      concat (map (\<lambda>b. map doc_id (filter (\<lambda>d. embedding d \<noteq> None) b)) batches))"
    using Cons.prems(3) by simp
  have dims: "\<forall>b \<in> set batches. \<forall>e \<in> set (List.map_filter embedding b). length e = index_d (index ?s1)"
    using Cons.prems(4) by simp
  from Cons.IH [OF k n d dims rest] show ?case .
qed

lemma positional_invariant_distinct_ids:
  assumes "distinct (concat (map (\<lambda>b. map doc_id (filter (\<lambda>d. embedding d \<noteq> None) b)) batches))"
    and "\<forall>b \<in> set batches. \<forall>e \<in> set (List.map_filter embedding b). length e = dm"
    and "add_all (new_store dm path) w [] batches = (s, w', inserted)"
    and "i < ntotal (index s)"
  shows "resolve_position s (int i) = Inr (inserted ! i)"
proof -
  have "keys (documents s) = inserted \<and> ntotal (index s) = length inserted"
    using assms(1,2)
    by (intro add_all_positional [OF _ _ _ _ assms(3)])
       (simp_all add: new_store_def keys_def ntotal_def IndexFlatL2_def)
  with assms(4) show ?thesis
    by (simp add: resolve_position_def getitem_def)
qed

end
